theory Spec2Isabelle
  imports Complex_Main "HOL-Library.Sublist" "HOL-Library.Multiset"
begin

section \<open>Numbers and strings of the host language\<close>

text \<open>
  The program is TypeScript. Its \<^verbatim>\<open>number\<close> values are modelled as exact rationals:
  every quantity the estimator computes is a string length, a ceiling, a rounded value or a
  product and quotient of such values with constants of the pricing table. For the length of
  a string (below \<open>2^30\<close>) the double-precision product \<^verbatim>\<open>length * 0.35\<close> differs from the
  exact product by less than \<open>10^-7\<close>, never exceeds it when it is an integer, and the exact
  product is an integer or at least \<open>0.05\<close> away from one, so \<^verbatim>\<open>Math.ceil\<close> gives the ceiling
  of the exact product; \<^verbatim>\<open>0.25\<close> is a binary fraction. The rounded usage can differ from the
  exact one only where the exact quotient is within the rounding error of a half.
  \<^verbatim>\<open>NaN\<close> and the infinities are outside the model. Strings are lists of characters and
  \<^verbatim>\<open>s.length\<close> is the length of the list.
\<close>

type_synonym number = rat

definition Math_ceil :: "number \<Rightarrow> number" where
  "Math_ceil x = of_int \<lceil>x\<rceil>"

text \<open>\<^verbatim>\<open>Math.round\<close> rounds to the nearest integer, a half towards plus infinity.\<close>

definition Math_round :: "number \<Rightarrow> number" where
  "Math_round x = of_int \<lfloor>x + 1 / 2\<rfloor>"


fun digits :: "nat \<Rightarrow> string" where
  "digits n =
     (if n < 10 then [''0123456789'' ! n]
      else digits (n div 10) @ [''0123456789'' ! (n mod 10)])"

declare digits.simps [simp del]

text \<open>
  The decimal text of a number in a template string, for the numbers that are printed here:
  multiples of one tenth (the results of \<^verbatim>\<open>Math.round(x) / 10\<close>). A whole number prints
  without a fraction, any other with its single decimal digit.
\<close>

definition numberToString :: "number \<Rightarrow> string" where
  "numberToString x =
     (let t = \<lfloor>\<bar>x\<bar> * 10\<rfloor>;
          whole = nat (t div 10);
          frac = nat (t mod 10)
      in (if x < 0 then ''-'' else '''') @ digits whole @
         (if frac = 0 then '''' else ''.'' @ digits frac))"

text \<open>Lower case, on the letters of the ASCII alphabet.\<close>

definition lower_char :: "char \<Rightarrow> char" where
  "lower_char c =
     (case map_of (zip ''ABCDEFGHIJKLMNOPQRSTUVWXYZ'' ''abcdefghijklmnopqrstuvwxyz'') c of
        Some l \<Rightarrow> l
      | None \<Rightarrow> c)"

definition toLowerCase :: "string \<Rightarrow> string" where
  "toLowerCase s = map lower_char s"

text \<open>\<^verbatim>\<open>s.includes(t)\<close>: \<open>t\<close> occurs in \<open>s\<close> as a contiguous substring.\<close>

definition includes_str :: "string \<Rightarrow> string \<Rightarrow> bool" where
  "includes_str s t = sublist t s"

definition startsWith :: "string \<Rightarrow> string \<Rightarrow> bool" where
  "startsWith s t = prefix t s"

section \<open>Token and cost estimation (utils/tokens.ts)\<close>

record tokens_per_char =
  code :: number
  prose :: number

definition TOKENS_PER_CHAR :: tokens_per_char where
  "TOKENS_PER_CHAR = \<lparr>code = 35 / 100, prose = 25 / 100\<rparr>"

record pricing =
  p_input :: number
  p_output :: number
  p_context :: number

text \<open>
  The pricing table is an object literal; \<^verbatim>\<open>Object.entries\<close> lists its keys in the order
  they are written. A lookup \<^verbatim>\<open>MODEL_PRICING[model]\<close> is the lookup of an own property:
  model names that are members of \<^verbatim>\<open>Object.prototype\<close> (such as \<^verbatim>\<open>constructor\<close>) are
  outside the model.
\<close>

definition MODEL_PRICING :: "(string \<times> pricing) list" where
  "MODEL_PRICING =
    [(''gpt-5'', \<lparr>p_input = 125 / 100, p_output = 10, p_context = 400000\<rparr>),
     (''gpt-5-mini'', \<lparr>p_input = 25 / 100, p_output = 2, p_context = 400000\<rparr>),
     (''o1-preview'', \<lparr>p_input = 15, p_output = 60, p_context = 128000\<rparr>),
     (''o1-mini'', \<lparr>p_input = 3, p_output = 12, p_context = 128000\<rparr>),
     (''gpt-4o'', \<lparr>p_input = 25 / 10, p_output = 10, p_context = 128000\<rparr>),
     (''gpt-4o-mini'', \<lparr>p_input = 15 / 100, p_output = 6 / 10, p_context = 128000\<rparr>),
     (''gpt-4-turbo'', \<lparr>p_input = 10, p_output = 30, p_context = 128000\<rparr>),
     (''claude-4-5-opus'', \<lparr>p_input = 5, p_output = 25, p_context = 200000\<rparr>),
     (''claude-4-5-sonnet'', \<lparr>p_input = 3, p_output = 15, p_context = 200000\<rparr>),
     (''claude-3-5-sonnet-20241022'', \<lparr>p_input = 3, p_output = 15, p_context = 200000\<rparr>),
     (''claude-3-5-haiku-20241022'', \<lparr>p_input = 8 / 10, p_output = 4, p_context = 200000\<rparr>),
     (''claude-3-opus-20240229'', \<lparr>p_input = 15, p_output = 75, p_context = 200000\<rparr>),
     (''gemini-3-pro'', \<lparr>p_input = 2, p_output = 12, p_context = 1000000\<rparr>),
     (''gemini-2.5-pro'', \<lparr>p_input = 125 / 100, p_output = 10, p_context = 1000000\<rparr>),
     (''gemini-2.5-flash'', \<lparr>p_input = 3 / 10, p_output = 25 / 10, p_context = 1000000\<rparr>),
     (''gemini-1.5-pro'', \<lparr>p_input = 125 / 100, p_output = 5, p_context = 2000000\<rparr>),
     (''gemini-1.5-flash'', \<lparr>p_input = 75 / 1000, p_output = 3 / 10, p_context = 1000000\<rparr>),
     (''gemini-1.5-flash-8b'', \<lparr>p_input = 375 / 10000, p_output = 15 / 100, p_context = 1000000\<rparr>),
     (''mistral-large-latest'', \<lparr>p_input = 2, p_output = 6, p_context = 128000\<rparr>),
     (''mistral-nemo'', \<lparr>p_input = 15 / 100, p_output = 15 / 100, p_context = 128000\<rparr>)]"

record TokenEstimate =
  characters :: number
  tokens :: number
  estimatedCost :: "number option"
  contextWindow :: "number option"
  contextUsagePercent :: "number option"
  warning :: "string option"

definition estimateTokens :: "string \<Rightarrow> bool \<Rightarrow> number" where
  "estimateTokens content isCode =
     (let ratio = (if isCode then code TOKENS_PER_CHAR else prose TOKENS_PER_CHAR)
      in Math_ceil (of_nat (length content) * ratio))"

definition high_usage_warning :: "number \<Rightarrow> string" where
  "high_usage_warning pct =
     ''High context usage ('' @ numberToString pct @ ''%). Consider splitting into subfolders.''"

definition critical_warning :: "number \<Rightarrow> string" where
  "critical_warning pct =
     ''Critical: Approaching context limit ('' @ numberToString pct @ ''%). Request may fail.''"

text \<open>
  The search for the pricing of a model: the exact key first, then the first entry, in the
  order of the table, whose key contains the model name or is contained in it, both in lower
  case.
\<close>

definition find_pricing :: "string \<Rightarrow> pricing option" where
  "find_pricing model =
     (case map_of MODEL_PRICING model of
        Some p \<Rightarrow> Some p
      | None \<Rightarrow>
          (let modelLower = toLowerCase model
           in map_option snd
                (find (\<lambda>(key, value). includes_str modelLower (toLowerCase key)
                                       \<or> includes_str (toLowerCase key) modelLower)
                   MODEL_PRICING)))"

definition getTokenEstimate :: "string \<Rightarrow> string option \<Rightarrow> bool \<Rightarrow> TokenEstimate" where
  "getTokenEstimate content model isCode =
     (let characters = of_nat (length content);
          tokens = estimateTokens content isCode;
          result = \<lparr>characters = characters, tokens = tokens, estimatedCost = None,
                    contextWindow = None, contextUsagePercent = None, warning = None\<rparr>
      in case model of
           None \<Rightarrow> result
         | Some m \<Rightarrow>
             if m = [] then result
             else (case find_pricing m of
                     None \<Rightarrow> result
                   | Some p \<Rightarrow>
                       (let pct = Math_round (tokens / p_context p * 100 * 10) / 10;
                            result = result\<lparr>estimatedCost := Some (tokens / 1000000 * p_input p),
                                            contextWindow := Some (p_context p),
                                            contextUsagePercent := Some pct\<rparr>
                        in if pct > 80 then result\<lparr>warning := Some (high_usage_warning pct)\<rparr>
                           else if pct > 95 then result\<lparr>warning := Some (critical_warning pct)\<rparr>
                           else result)))"



section \<open>Scanning and grouping (scanner/index.ts)\<close>

record IndexedFile =
  path :: string
  content :: string
  directory :: string

record SubfolderConfig =
  sub_path :: string
  sub_prompt :: "string option"
  sub_outputPath :: "string option"
  sub_existingDocs :: "string option"
  sub_includeImports :: "bool option"
  sub_additionalFiles :: "string list option"
  sub_importDepth :: "number option"

text \<open>\<^verbatim>\<open>filePath.split("\\").join("/")\<close>: every backslash becomes a slash.\<close>

definition normalizePath :: "string \<Rightarrow> string" where
  "normalizePath filePath = map (\<lambda>c. if c = CHR 0x5C then CHR ''/'' else c) filePath"

text \<open>\<^verbatim>\<open>s.replace(/\/$/, "")\<close>: one slash at the end of the string is removed.\<close>

definition strip_trailing_slash :: "string \<Rightarrow> string" where
  "strip_trailing_slash s = (if s \<noteq> [] \<and> last s = CHR ''/'' then butlast s else s)"

definition belongsToSubfolder :: "string \<Rightarrow> string \<Rightarrow> bool" where
  "belongsToSubfolder filePath subfolderPath =
     (let normalizedFile = normalizePath filePath;
          normalizedSubfolder = normalizePath subfolderPath;
          cleanSubfolder = strip_trailing_slash normalizedSubfolder
      in startsWith normalizedFile (cleanSubfolder @ ''/'') \<or> normalizedFile = cleanSubfolder)"

text \<open>
  The result of \<^verbatim>\<open>groupFilesBySubfolder\<close> is a \<^verbatim>\<open>Map\<close> keyed by the subfolder objects
  themselves. The elements of \<^verbatim>\<open>subfolders\<close> are taken to be distinct objects (as the
  configuration loader creates them), so an object is known by its position in the array:
  the map is the list of its entries in insertion order, entry \<open>i\<close> for \<open>subfolders ! i\<close>.

  \<^verbatim>\<open>sort((a, b) => b.path.length - a.path.length)\<close> is a stable sort by descending length
  of the path; \<open>sort_key\<close> is a stable insertion sort.
\<close>

definition sortedSubfolders :: "SubfolderConfig list \<Rightarrow> (nat \<times> SubfolderConfig) list" where
  "sortedSubfolders subfolders =
     sort_key (\<lambda>(i, subfolder). - int (length (sub_path subfolder))) (enumerate 0 subfolders)"

text \<open>The body of the loop over the files: the first subfolder that matches takes the file.\<close>

definition assign_file ::
  "(nat \<times> SubfolderConfig) list \<Rightarrow> IndexedFile \<Rightarrow>
   IndexedFile list list \<times> string set \<Rightarrow> IndexedFile list list \<times> string set" where
  "assign_file ordered file st =
     (case find (\<lambda>(i, subfolder). belongsToSubfolder (path file) (sub_path subfolder)) ordered of
        None \<Rightarrow> st
      | Some (i, subfolder) \<Rightarrow>
          (case st of (grouped, assignedFiles) \<Rightarrow>
             (grouped[i := grouped ! i @ [file]], insert (path file) assignedFiles)))"

definition groupFilesBySubfolder ::
  "IndexedFile list \<Rightarrow> SubfolderConfig list \<Rightarrow>
   (SubfolderConfig \<times> IndexedFile list) list \<times> IndexedFile list" where
  "groupFilesBySubfolder files subfolders =
     (case fold (assign_file (sortedSubfolders subfolders)) files
             (map (\<lambda>subfolder. []) subfolders, {}) of
        (grouped, assignedFiles) \<Rightarrow>
          (zip subfolders grouped, filter (\<lambda>f. path f \<notin> assignedFiles) files))"

section \<open>Regular expressions of the host language\<close>

text \<open>
  \<^verbatim>\<open>extractImports\<close> is written with four regular expressions. They are modelled by a
  backtracking matcher with the priorities of the ECMAScript semantics: for a pattern and a
  position the matcher lists every way to match at that position, the preferred way first (an
  alternative prefers its left branch, a quantifier is greedy and prefers one more
  iteration). A match state is the rest of the input and the text of capture group 1.
  Strings are lists of 8-bit characters, so \<^verbatim>\<open>\s\<close> is the ASCII white space.
\<close>

datatype rx =
    Chars string
  | Class "char list"
  | NotClass "char list"
  | Seq rx rx
  | Alt rx rx
  | Star rx
  | Plus rx
  | Opt rx
  | Group rx

type_synonym mstate = "string \<times> string option"

text \<open>
  Greedy iteration. An iteration that consumes nothing is rejected, as in ECMAScript, so the
  number of iterations is at most the length of the input, which is the first argument.
\<close>

primrec star_iter :: "nat \<Rightarrow> (mstate \<Rightarrow> mstate list) \<Rightarrow> mstate \<Rightarrow> mstate list" where
  "star_iter 0 f st = [st]"
| "star_iter (Suc n) f st =
     concat (map (star_iter n f)
               (filter (\<lambda>st'. length (fst st') < length (fst st)) (f st))) @ [st]"

fun rx_match :: "rx \<Rightarrow> mstate \<Rightarrow> mstate list" where
  "rx_match (Chars t) st =
     (if prefix t (fst st) then [(drop (length t) (fst st), snd st)] else [])"
| "rx_match (Class cs) st =
     (case fst st of [] \<Rightarrow> [] | x # s' \<Rightarrow> if x \<in> set cs then [(s', snd st)] else [])"
| "rx_match (NotClass cs) st =
     (case fst st of [] \<Rightarrow> [] | x # s' \<Rightarrow> if x \<notin> set cs then [(s', snd st)] else [])"
| "rx_match (Seq a b) st = concat (map (rx_match b) (rx_match a st))"
| "rx_match (Alt a b) st = rx_match a st @ rx_match b st"
| "rx_match (Star a) st = star_iter (length (fst st)) (rx_match a) st"
| "rx_match (Plus a) st =
     concat (map (\<lambda>st'. star_iter (length (fst st')) (rx_match a) st') (rx_match a st))"
| "rx_match (Opt a) st = rx_match a st @ [st]"
| "rx_match (Group a) st =
     map (\<lambda>st'. (fst st', Some (take (length (fst st) - length (fst st')) (fst st))))
       (rx_match a st)"

text \<open>
  The loop \<^verbatim>\<open>while ((match = re.exec(content)) !== null)\<close> of a global expression: the
  leftmost match from the current position, then on from the end of that match. The result
  lists \<^verbatim>\<open>match[1]\<close> of every match. None of the four expressions matches the empty
  string; the model stops after an empty match.
\<close>

function exec_all :: "rx \<Rightarrow> string \<Rightarrow> string option list" where
  "exec_all r s =
     (case rx_match r (s, None) of
        st # _ \<Rightarrow> if length (fst st) < length s then snd st # exec_all r (fst st) else [snd st]
      | [] \<Rightarrow> (case s of [] \<Rightarrow> [] | _ # t \<Rightarrow> exec_all r t))"
  by pat_completeness auto
termination
  by (relation "measure (\<lambda>(r, s). length s)") auto

fun seqs :: "rx list \<Rightarrow> rx" where
  "seqs [] = Chars []"
| "seqs [a] = a"
| "seqs (a # b # bs) = Seq a (seqs (b # bs))"

definition rx_space :: rx where
  "rx_space = Class [CHR '' '', CHR 0x09, CHR 0x0A, CHR 0x0B, CHR 0x0C, CHR 0x0D]"

definition rx_word :: rx where
  "rx_word = Class (''abcdefghijklmnopqrstuvwxyz'' @ ''ABCDEFGHIJKLMNOPQRSTUVWXYZ'' @
                    ''0123456789'' @ ''_'')"

definition rx_quote :: rx where
  "rx_quote = Class [CHR 0x22, CHR 0x27]"

definition rx_quoted_path :: rx where
  "rx_quoted_path = seqs [rx_quote, Group (Plus (NotClass [CHR 0x22, CHR 0x27])), rx_quote]"

text \<open>\<^verbatim>\<open>(?:\{[^}]*\}|\*\s+as\s+\w+|\w+)\<close>\<close>

definition rx_clause :: rx where
  "rx_clause =
     Alt (seqs [Chars ''{'', Star (NotClass ''}''), Chars ''}''])
       (Alt (seqs [Chars ''*'', Plus rx_space, Chars ''as'', Plus rx_space, Plus rx_word])
          (Plus rx_word))"

text \<open>\<^verbatim>\<open>/import\s+(?:(?:CLAUSE)(?:\s*,\s*(?:CLAUSE))*\s+from\s+)?["']([^"']+)["']/g\<close>\<close>

definition es6ImportRegex :: rx where
  "es6ImportRegex =
     seqs [Chars ''import'', Plus rx_space,
           Opt (seqs [rx_clause,
                      Star (seqs [Star rx_space, Chars '','', Star rx_space, rx_clause]),
                      Plus rx_space, Chars ''from'', Plus rx_space]),
           rx_quoted_path]"

text \<open>\<^verbatim>\<open>/import\s*\(\s*["']([^"']+)["']\s*\)/g\<close>\<close>

definition dynamicImportRegex :: rx where
  "dynamicImportRegex =
     seqs [Chars ''import'', Star rx_space, Chars ''('', Star rx_space, rx_quoted_path,
           Star rx_space, Chars '')'']"

text \<open>\<^verbatim>\<open>/require\s*\(\s*["']([^"']+)["']\s*\)/g\<close>\<close>

definition requireRegex :: rx where
  "requireRegex =
     seqs [Chars ''require'', Star rx_space, Chars ''('', Star rx_space, rx_quoted_path,
           Star rx_space, Chars '')'']"

text \<open>\<^verbatim>\<open>/export\s+(?:\{[^}]*\}|\*)\s+from\s+["']([^"']+)["']/g\<close>\<close>

definition exportFromRegex :: rx where
  "exportFromRegex =
     seqs [Chars ''export'', Plus rx_space,
           Alt (seqs [Chars ''{'', Star (NotClass ''}''), Chars ''}'']) (Chars ''*''),
           Plus rx_space, Chars ''from'', Plus rx_space, rx_quoted_path]"

text \<open>
  Group 1 takes part in every match of the four expressions and is not empty, so the test
  \<^verbatim>\<open>if (match[1])\<close> of the first loop always holds; the model keeps the captured texts.
\<close>

definition captured :: "string option list \<Rightarrow> string list" where
  "captured ms = concat (map (\<lambda>m. case m of None \<Rightarrow> [] | Some g \<Rightarrow> [g]) ms)"

definition extractImports :: "string \<Rightarrow> string list" where
  "extractImports text =
     captured (filter (\<lambda>m. m \<noteq> None \<and> m \<noteq> Some []) (exec_all es6ImportRegex text)) @
     captured (exec_all dynamicImportRegex text) @
     captured (exec_all requireRegex text) @
     captured (exec_all exportFromRegex text)"

section \<open>The platform\<close>

text \<open>
  The program reaches the outside through the Node.js modules \<^verbatim>\<open>node:fs\<close> and
  \<^verbatim>\<open>node:path\<close>, the \<^verbatim>\<open>glob\<close> package and the chat model of the LLM provider. They are
  parameters of the model: a platform is a record of these operations over a type \<open>'w\<close> of
  states of the world (the file system and the provider). An operation that can throw returns
  a sum, \<open>Inl\<close> the error.
\<close>

datatype error = Error string

datatype llm_block = StringBlock string | TextBlock string | OtherBlock

datatype llm_content = StringContent string | BlocksContent "llm_block list" | OtherContent

record 'w platform =
  existsSync :: "'w \<Rightarrow> string \<Rightarrow> bool"
  readFileSync :: "'w \<Rightarrow> string \<Rightarrow> error + string"
  mkdirSync :: "'w \<Rightarrow> string \<Rightarrow> error + 'w"
  writeFileSync :: "'w \<Rightarrow> string \<Rightarrow> string \<Rightarrow> error + 'w"
  glob :: "'w \<Rightarrow> string \<Rightarrow> string \<Rightarrow> string list \<Rightarrow> string list"
  invoke :: "'w \<Rightarrow> string \<Rightarrow> string \<Rightarrow> (error + llm_content) \<times> 'w"
  resolve :: "string \<Rightarrow> string \<Rightarrow> string"
  relative :: "string \<Rightarrow> string \<Rightarrow> string"
  dirname :: "string \<Rightarrow> string"
  join :: "string \<Rightarrow> string \<Rightarrow> string"
  basename :: "string \<Rightarrow> string"

section \<open>Import resolution (scanner/index.ts)\<close>

text \<open>\<^verbatim>\<open>s.replace(/\.js$/, "")\<close>\<close>

definition strip_js_extension :: "string \<Rightarrow> string" where
  "strip_js_extension s = (if suffix ''.js'' s then take (length s - 3) s else s)"

definition resolveImportPath ::
  "'w platform \<Rightarrow> 'w \<Rightarrow> string \<Rightarrow> string \<Rightarrow> string \<Rightarrow> string option" where
  "resolveImportPath P w importPath fromFile rootDir =
     (if \<not> startsWith importPath ''.'' \<and> \<not> startsWith importPath ''/'' then None
      else
        (let fromDir = dirname P (resolve P rootDir fromFile);
             resolvedPath = strip_js_extension (resolve P fromDir importPath);
             extensions = [''.ts'', ''.tsx'', ''.js'', ''.jsx'', []];
             indexFiles = [''index.ts'', ''index.tsx'', ''index.js'', ''index.jsx'']
         in case find (existsSync P w) (map (\<lambda>ext. resolvedPath @ ext) extensions) of
              Some tryPath \<Rightarrow> Some (relative P rootDir tryPath)
            | None \<Rightarrow>
                (case find (existsSync P w) (map (join P resolvedPath) indexFiles) of
                   Some tryPath \<Rightarrow> Some (relative P rootDir tryPath)
                 | None \<Rightarrow> None)))"

text \<open>
  The body of the inner loop of \<^verbatim>\<open>resolveImportsForFiles\<close>, for one import of one file of
  the current list. The state of the loops is the array \<^verbatim>\<open>importedFiles\<close> and the set
  \<^verbatim>\<open>processedImports\<close>. \<^verbatim>\<open>if (!resolvedPath) continue\<close> skips \<^verbatim>\<open>null\<close> and the empty string.
\<close>

definition process_import ::
  "'w platform \<Rightarrow> 'w \<Rightarrow> IndexedFile list \<Rightarrow> string set \<Rightarrow> string set \<Rightarrow> string \<Rightarrow>
   IndexedFile \<Rightarrow> string \<Rightarrow> IndexedFile list \<times> string set \<Rightarrow> IndexedFile list \<times> string set" where
  "process_import P w allFiles allFilePaths currentFilePaths rootDir file importPath st =
     (case st of (importedFiles, processedImports) \<Rightarrow>
        (case resolveImportPath P w importPath (path file) rootDir of
           None \<Rightarrow> st
         | Some resolvedPath \<Rightarrow>
             if resolvedPath = [] then st
             else
               (let normalizedResolved = normalizePath resolvedPath
                in if normalizedResolved \<in> currentFilePaths
                      \<or> normalizedResolved \<in> processedImports then st
                   else
                     (let processedImports = insert normalizedResolved processedImports
                      in case find (\<lambda>f. normalizePath (path f) = normalizedResolved) allFiles of
                           Some importedFile \<Rightarrow>
                             (importedFiles @ [importedFile], processedImports)
                         | None \<Rightarrow>
                             if normalizedResolved \<in> allFilePaths then
                               (case readFileSync P w (resolve P rootDir resolvedPath) of
                                  Inr text \<Rightarrow>
                                    (importedFiles @
                                       [\<lparr>path = normalizedResolved, content = text,
                                         directory = normalizePath (dirname P resolvedPath)\<rparr>],
                                     processedImports)
                                | Inl e \<Rightarrow> (importedFiles, processedImports))
                             else (importedFiles, processedImports)))))"

text \<open>One level: the two nested loops over the current files and over the imports of each file.\<close>

definition resolve_level ::
  "'w platform \<Rightarrow> 'w \<Rightarrow> IndexedFile list \<Rightarrow> IndexedFile list \<Rightarrow> string \<Rightarrow> IndexedFile list" where
  "resolve_level P w files allFiles rootDir =
     (let allFilePaths = set (map (\<lambda>f. normalizePath (path f)) allFiles);
          currentFilePaths = set (map (\<lambda>f. normalizePath (path f)) files)
      in fst (fold (\<lambda>file. fold (process_import P w allFiles allFilePaths currentFilePaths
                                     rootDir file)
                                (extractImports (content file)))
                files ([], {})))"

text \<open>
  The depth is a \<^verbatim>\<open>number\<close>; the configuration schema admits every number from 0 to 5.
\<close>

function resolveImportsForFiles ::
  "'w platform \<Rightarrow> 'w \<Rightarrow> IndexedFile list \<Rightarrow> IndexedFile list \<Rightarrow> string \<Rightarrow> number \<Rightarrow>
   IndexedFile list" where
  "resolveImportsForFiles P w files allFiles rootDir depth =
     (if depth \<le> 0 then []
      else
        (let importedFiles = resolve_level P w files allFiles rootDir
         in if importedFiles \<noteq> [] \<and> depth > 1 then
              importedFiles @
                resolveImportsForFiles P w importedFiles (allFiles @ importedFiles) rootDir
                  (depth - 1)
            else importedFiles))"
  by pat_completeness auto
termination
  by (relation "measure (\<lambda>(P, w, files, allFiles, rootDir, depth). nat \<lceil>depth\<rceil>)")
     auto

declare resolveImportsForFiles.simps [simp del]


section \<open>The LLM service (llm/index.ts)\<close>








section \<open>The generation orchestrator (generator/index.ts)\<close>


fun join_with :: "string \<Rightarrow> string list \<Rightarrow> string" where
  "join_with sep [] = []"
| "join_with sep [x] = x"
| "join_with sep (x # y # ys) = x @ sep @ join_with sep (y # ys)"




















section \<open>A platform for the examples\<close>

text \<open>
  The examples run on a small platform: the world is a list of the regular files with their
  absolute paths and contents, directories exist as prefixes of file paths, the paths are
  POSIX paths with the working directory \<^verbatim>\<open>/\<close>, a glob pattern without wildcard characters
  matches the file of that name, and the chat model answers every request with the same
  string.
\<close>

type_synonym memfs = "(string \<times> string) list"

fun split_slash :: "string \<Rightarrow> string list" where
  "split_slash [] = [[]]"
| "split_slash (c # cs) =
     (if c = CHR ''/'' then [] # split_slash cs
      else (case split_slash cs of [] \<Rightarrow> [[c]] | seg # segs \<Rightarrow> (c # seg) # segs))"

fun normalize_segments :: "bool \<Rightarrow> string list \<Rightarrow> string list \<Rightarrow> string list" where
  "normalize_segments absolute acc [] = acc"
| "normalize_segments absolute acc (s # ss) =
     (if s = [] \<or> s = ''.'' then normalize_segments absolute acc ss
      else if s = ''..'' then
        (if acc \<noteq> [] \<and> last acc \<noteq> ''..'' then normalize_segments absolute (butlast acc) ss
         else if absolute then normalize_segments absolute acc ss
         else normalize_segments absolute (acc @ [s]) ss)
      else normalize_segments absolute (acc @ [s]) ss)"

definition absolute_segments :: "string \<Rightarrow> string list" where
  "absolute_segments p = normalize_segments True [] (split_slash p)"

definition posix_resolve :: "string \<Rightarrow> string \<Rightarrow> string" where
  "posix_resolve a b =
     ''/'' @ join_with ''/''
              (if startsWith b ''/'' then absolute_segments b
               else absolute_segments (a @ ''/'' @ b))"

fun drop_common :: "string list \<Rightarrow> string list \<Rightarrow> string list \<times> string list" where
  "drop_common (x # xs) (y # ys) = (if x = y then drop_common xs ys else (x # xs, y # ys))"
| "drop_common xs ys = (xs, ys)"

definition posix_relative :: "string \<Rightarrow> string \<Rightarrow> string" where
  "posix_relative a b =
     (case drop_common (absolute_segments a) (absolute_segments b) of
        (up, down) \<Rightarrow> join_with ''/'' (replicate (length up) ''..'' @ down))"

definition strip_slashes :: "string \<Rightarrow> string" where
  "strip_slashes p = rev (dropWhile (\<lambda>c. c = CHR ''/'') (rev p))"

definition posix_dirname :: "string \<Rightarrow> string" where
  "posix_dirname p =
     (let q = strip_slashes p
      in if q = [] then (if startsWith p ''/'' then ''/'' else ''.'')
         else if CHR ''/'' \<in> set q then
           (let d = strip_slashes (rev (dropWhile (\<lambda>c. c \<noteq> CHR ''/'') (rev q)))
            in if d = [] then ''/'' else d)
         else ''.'')"

definition posix_join :: "string \<Rightarrow> string \<Rightarrow> string" where
  "posix_join a b =
     (let joined = (if a = [] then b else if b = [] then a else a @ ''/'' @ b);
          absolute = startsWith joined ''/'';
          body = join_with ''/'' (normalize_segments absolute [] (split_slash joined))
      in if absolute then ''/'' @ body else if body = [] then ''.'' else body)"

definition posix_basename :: "string \<Rightarrow> string" where
  "posix_basename p = (if strip_slashes p = [] then [] else last (split_slash (strip_slashes p)))"

definition mem_exists :: "memfs \<Rightarrow> string \<Rightarrow> bool" where
  "mem_exists w p = list_ex (\<lambda>q. q = p \<or> prefix (p @ ''/'') q) (map fst w)"

definition mem_read :: "memfs \<Rightarrow> string \<Rightarrow> error + string" where
  "mem_read w p = (case map_of w p of None \<Rightarrow> Inl (Error ''ENOENT'') | Some text \<Rightarrow> Inr text)"

definition mem_glob :: "memfs \<Rightarrow> string \<Rightarrow> string \<Rightarrow> string list \<Rightarrow> string list" where
  "mem_glob w pattern cwd ignore =
     (if list_ex (\<lambda>c. c \<in> set ''*?[]{}()!+@'') pattern then []
      else if map_of w (posix_resolve cwd pattern) \<noteq> None \<and> pattern \<notin> set ignore
           then [pattern]
      else [])"

definition example_platform :: "memfs platform" where
  "example_platform =
     \<lparr>existsSync = mem_exists,
      readFileSync = mem_read,
      mkdirSync = (\<lambda>w dir. Inr w),
      writeFileSync = (\<lambda>w p text. Inr ((p, text) # w)),
      glob = mem_glob,
      invoke = (\<lambda>w systemPrompt userContent. (Inr (StringContent ''# Documentation''), w)),
      resolve = posix_resolve,
      relative = posix_relative,
      dirname = posix_dirname,
      join = posix_join,
      basename = posix_basename\<rparr>"

text \<open>
  Two files that import each other, in the project \<^verbatim>\<open>/r\<close>, and a third file that nothing
  imports.
\<close>

definition a_ts :: IndexedFile where
  "a_ts = \<lparr>path = ''a.ts'', content = ''import { b } from \"./b\";'', directory = []\<rparr>"

definition b_ts :: IndexedFile where
  "b_ts = \<lparr>path = ''b.ts'', content = ''import { a } from \"./a\";'', directory = []\<rparr>"

definition c_ts :: IndexedFile where
  "c_ts = \<lparr>path = ''lib/c.ts'', content = ''export const c = 1;'', directory = ''lib''\<rparr>"

definition cyclic_project :: memfs where
  "cyclic_project =
     [(''/r/a.ts'', content a_ts), (''/r/b.ts'', content b_ts), (''/r/lib/c.ts'', content c_ts)]"

section \<open>Notions used in the statements and proofs\<close>


text \<open>
  The subfolder that takes a file of a given path: the index of the first subfolder, in the
  sorted order, that the path belongs to.
\<close>

definition assigned_index :: "(nat \<times> SubfolderConfig) list \<Rightarrow> string \<Rightarrow> nat option" where
  "assigned_index ordered p =
     map_option fst (find (\<lambda>(i, subfolder). belongsToSubfolder p (sub_path subfolder)) ordered)"

text \<open>
  A subfolder path lies properly under another: without the trailing slash, it begins with
  the other path and a slash.
\<close>

definition clean_path :: "string \<Rightarrow> string" where
  "clean_path p = strip_trailing_slash (normalizePath p)"

definition proper_subfolder :: "string \<Rightarrow> string \<Rightarrow> bool" where
  "proper_subfolder inner outer = startsWith (clean_path inner) (clean_path outer @ ''/'')"

text \<open>The buckets of a grouping, the ungrouped files last.\<close>

definition buckets ::
  "(SubfolderConfig \<times> IndexedFile list) list \<times> IndexedFile list \<Rightarrow> IndexedFile list list" where
  "buckets g = map snd (fst g) @ [snd g]"

text \<open>Subfolders and files for the examples of the grouping.\<close>

definition subfolder_at :: "string \<Rightarrow> SubfolderConfig" where
  "subfolder_at p =
     \<lparr>sub_path = p, sub_prompt = None, sub_outputPath = None, sub_existingDocs = None,
      sub_includeImports = None, sub_additionalFiles = None, sub_importDepth = None\<rparr>"

definition file_at :: "string \<Rightarrow> IndexedFile" where
  "file_at p = \<lparr>path = p, content = [], directory = []\<rparr>"
















section \<open>Properties of the estimator\<close>






text \<open>
  C7. \<^verbatim>\<open>estimateTokens\<close> of the empty string is 0 for either flag; for a fixed flag a
  string at least as long as another gets at least as many tokens; the value is the ceiling
  of the length times the ratio of the content type, and the ratio of code is greater than
  the ratio of prose.
\<close>

theorem estimateTokens_zero_monotone:
  "estimateTokens [] isCode = 0
   \<and> (length s \<le> length t \<longrightarrow> estimateTokens s isCode \<le> estimateTokens t isCode)
   \<and> estimateTokens s isCode =
       of_int \<lceil>of_nat (length s) *
                (if isCode then code TOKENS_PER_CHAR else prose TOKENS_PER_CHAR)\<rceil>
   \<and> prose TOKENS_PER_CHAR < code TOKENS_PER_CHAR"
  by (auto simp: estimateTokens_def Math_ceil_def TOKENS_PER_CHAR_def Let_def
           intro!: ceiling_mono)

theorem estimateTokens_zero_monotone_witness:
  "length ''ab'' \<le> length ''abcdef''
   \<and> estimateTokens ''ab'' True = 1 \<and> estimateTokens ''abcdef'' True = 3
   \<and> estimateTokens ''ab'' True \<le> estimateTokens ''abcdef'' True
   \<and> estimateTokens [] True = 0"
  using estimateTokens_zero_monotone [of True "''ab''" "''abcdef''"]
  by (simp add: estimateTokens_def Math_ceil_def TOKENS_PER_CHAR_def ceiling_eq_iff)

lemma find_pricing_gpt_4o:
  "find_pricing ''gpt-4o'' = Some \<lparr>p_input = 25 / 10, p_output = 10, p_context = 128000\<rparr>"
  by (simp add: find_pricing_def MODEL_PRICING_def)

lemma estimateTokens_360000:
  "length text = 360000 \<Longrightarrow> estimateTokens text True = 126000"
  by (simp add: estimateTokens_def TOKENS_PER_CHAR_def Math_ceil_def)

lemma usage_126000_of_128000: "Math_round (7875 / 8) = 984"
  by (simp add: Math_round_def floor_eq_iff)

lemma numberToString_98_4: "numberToString (492 / 5) = ''98.4''"
  by code_simp

lemma getTokenEstimate_360000:
  "length text = 360000 \<Longrightarrow>
   getTokenEstimate text (Some ''gpt-4o'') True =
     \<lparr>characters = 360000, tokens = 126000, estimatedCost = Some (315 / 1000),
      contextWindow = Some 128000, contextUsagePercent = Some (984 / 10),
      warning = Some ''High context usage (98.4%). Consider splitting into subfolders.''\<rparr>"
  by (simp add: getTokenEstimate_def estimateTokens_360000 find_pricing_gpt_4o
        usage_126000_of_128000 numberToString_98_4 high_usage_warning_def Let_def)

text \<open>
  C3. The claim asks for the distinct critical warning when the usage exceeds 95%. The test
  for 95% is the \<^verbatim>\<open>else\<close> branch of the test for 80%, so it is never reached: for a text of
  360000 characters and the model \<^verbatim>\<open>gpt-4o\<close> (126000 tokens of a window of 128000, 98.4%)
  the warning is the high-usage one.
\<close>

theorem getTokenEstimate_critical_unreachable:
  "contextUsagePercent (getTokenEstimate (replicate 360000 CHR ''a'') (Some ''gpt-4o'') True)
     = Some (984 / 10)
   \<and> warning (getTokenEstimate (replicate 360000 CHR ''a'') (Some ''gpt-4o'') True)
     = Some (high_usage_warning (984 / 10))
   \<and> warning (getTokenEstimate (replicate 360000 CHR ''a'') (Some ''gpt-4o'') True)
     \<noteq> Some (critical_warning (984 / 10))"
  by (simp add: getTokenEstimate_360000 [OF length_replicate] high_usage_warning_def
        critical_warning_def numberToString_98_4)



section \<open>Properties of the import resolution\<close>


text \<open>Every file that one step of the loop adds is a known file: the read is never reached.\<close>

lemma process_import_known:
  assumes "set (fst st) \<subseteq> set allFiles"
    and "allFilePaths = set (map (\<lambda>f. normalizePath (path f)) allFiles)"
  shows "set (fst (process_import P w allFiles allFilePaths cur rootDir file imp st))
           \<subseteq> set allFiles"
proof (cases st)
  case (Pair importedFiles processedImports)
  show ?thesis
  proof (cases "resolveImportPath P w imp (path file) rootDir")
    case None
    then show ?thesis using assms Pair by (simp add: process_import_def)
  next
    case (Some resolvedPath)
    let ?n = "normalizePath resolvedPath"
    show ?thesis
    proof (cases "find (\<lambda>f. normalizePath (path f) = ?n) allFiles")
      case None
      then have "?n \<notin> allFilePaths"
        using assms(2) by (auto simp: find_None_iff)
      then show ?thesis
        using assms(1) Pair Some None by (simp add: process_import_def Let_def)
    next
      case (Some importedFile)
      then have "importedFile \<in> set allFiles"
        by (auto simp: find_Some_iff)
      then show ?thesis
        using assms(1) Pair \<open>resolveImportPath P w imp (path file) rootDir = Some resolvedPath\<close>
          Some
        by (simp add: process_import_def Let_def)
    qed
  qed
qed

lemma fold_process_import_known:
  assumes "allFilePaths = set (map (\<lambda>f. normalizePath (path f)) allFiles)"
  shows "set (fst st) \<subseteq> set allFiles \<Longrightarrow>
         set (fst (fold (process_import P w allFiles allFilePaths cur rootDir file) imps st))
           \<subseteq> set allFiles"
proof (induction imps arbitrary: st)
  case Nil
  then show ?case by simp
next
  case (Cons imp imps)
  from Cons.prems assms have
    "set (fst (process_import P w allFiles allFilePaths cur rootDir file imp st)) \<subseteq> set allFiles"
    by (rule process_import_known)
  then show ?case by (simp add: Cons.IH)
qed

lemma fold_files_known:
  assumes "allFilePaths = set (map (\<lambda>f. normalizePath (path f)) allFiles)"
  shows "set (fst st) \<subseteq> set allFiles \<Longrightarrow>
         set (fst (fold (\<lambda>file. fold (process_import P w allFiles allFilePaths cur rootDir file)
                                   (extractImports (content file))) fs st))
           \<subseteq> set allFiles"
proof (induction fs arbitrary: st)
  case Nil
  then show ?case by simp
next
  case (Cons f fs)
  have "set (fst (fold (process_import P w allFiles allFilePaths cur rootDir f)
                    (extractImports (content f)) st)) \<subseteq> set allFiles"
    using assms Cons.prems by (rule fold_process_import_known)
  then show ?case by (simp add: Cons.IH)
qed

lemma resolve_level_known:
  "set (resolve_level P w files allFiles rootDir) \<subseteq> set allFiles"
  unfolding resolve_level_def Let_def
  by (rule fold_files_known) simp_all










lemma resolveImportsForFiles_known:
  "set (resolveImportsForFiles P w files allFiles rootDir depth) \<subseteq> set allFiles"
proof (induction P w files allFiles rootDir depth rule: resolveImportsForFiles.induct)
  case (1 P w files allFiles rootDir depth)
  let ?level = "resolve_level P w files allFiles rootDir"
  have level: "set ?level \<subseteq> set allFiles"
    by (rule resolve_level_known)
  show ?case
  proof (cases "\<not> depth \<le> 0 \<and> ?level \<noteq> [] \<and> depth > 1")
    case True
    then have "set (resolveImportsForFiles P w ?level (allFiles @ ?level) rootDir (depth - 1))
                 \<subseteq> set (allFiles @ ?level)"
      using "1.IH" [of ?level] by simp
    then show ?thesis
      using True level by (subst resolveImportsForFiles.simps) (auto simp: Let_def)
  next
    case False
    then show ?thesis
      using level by (subst resolveImportsForFiles.simps) (auto simp: Let_def)
  qed
qed

text \<open>
  C9. With a depth of 0, \<^verbatim>\<open>resolveImportsForFiles\<close> returns the empty list, for every list
  of files, every list of known files and every root directory.
\<close>

theorem resolveImportsForFiles_depth_zero:
  "resolveImportsForFiles P w files allFiles rootDir 0 = []"
  by (subst resolveImportsForFiles.simps) simp

theorem resolveImportsForFiles_depth_zero_witness:
  "resolveImportsForFiles example_platform cyclic_project [a_ts] [a_ts, b_ts] ''/r'' 0 = []
   \<and> resolveImportsForFiles example_platform cyclic_project [a_ts] [a_ts, b_ts] ''/r'' 1 = [b_ts]"
proof
  show "resolveImportsForFiles example_platform cyclic_project [a_ts] [a_ts, b_ts] ''/r'' 0 = []"
    by (rule resolveImportsForFiles_depth_zero)
  show "resolveImportsForFiles example_platform cyclic_project [a_ts] [a_ts, b_ts] ''/r'' 1 = [b_ts]"
    by code_simp
qed

text \<open>
  C10. Every file in the list that \<^verbatim>\<open>resolveImportsForFiles\<close> returns is an element of the
  list of known files it was called with: the same record, with its path and its content.
\<close>

theorem resolveImportsForFiles_only_known_files:
  "set (resolveImportsForFiles P w files allFiles rootDir depth) \<subseteq> set allFiles"
  by (rule resolveImportsForFiles_known)

theorem resolveImportsForFiles_only_known_files_witness:
  "resolveImportsForFiles example_platform cyclic_project [a_ts] [a_ts, b_ts, c_ts] ''/r'' 3
     = [b_ts, a_ts, b_ts]
   \<and> set (resolveImportsForFiles example_platform cyclic_project [a_ts] [a_ts, b_ts, c_ts] ''/r'' 3)
       \<subseteq> set [a_ts, b_ts, c_ts]"
proof
  show "resolveImportsForFiles example_platform cyclic_project [a_ts] [a_ts, b_ts, c_ts] ''/r'' 3
          = [b_ts, a_ts, b_ts]"
    by code_simp
  show "set (resolveImportsForFiles example_platform cyclic_project [a_ts] [a_ts, b_ts, c_ts]
               ''/r'' 3) \<subseteq> set [a_ts, b_ts, c_ts]"
    by (rule resolveImportsForFiles_only_known_files)
qed




text \<open>
  C2. The claim asks for a file that is not among the known files, but is on the disk, to be
  read and returned. The branch that reads is guarded by the test that the path is a path of
  the known files, which fails whenever no known file has the path. Here \<^verbatim>\<open>a.ts\<close> imports
  \<^verbatim>\<open>./b\<close>, the import resolves to \<^verbatim>\<open>b.ts\<close>, the file is on the disk and can be read, it is
  not a known file, and nothing is returned.
\<close>

theorem resolveImportsForFiles_never_reads:
  "extractImports (content a_ts) = [''./b'']
   \<and> resolveImportPath example_platform cyclic_project ''./b'' (path a_ts) ''/r'' = Some ''b.ts''
   \<and> existsSync example_platform cyclic_project (resolve example_platform ''/r'' ''b.ts'')
   \<and> readFileSync example_platform cyclic_project (resolve example_platform ''/r'' ''b.ts'')
       = Inr (content b_ts)
   \<and> resolveImportsForFiles example_platform cyclic_project [a_ts] [a_ts, c_ts] ''/r'' 2 = []"
  by code_simp

section \<open>Properties of the grouping\<close>

lemma assign_file_index:
  "assign_file ordered file (g, a) =
     (case assigned_index ordered (path file) of
        None \<Rightarrow> (g, a)
      | Some i \<Rightarrow> (g[i := g ! i @ [file]], insert (path file) a))"
  by (auto simp: assign_file_def assigned_index_def split: option.splits)

text \<open>The loop over the files in closed form: bucket \<open>i\<close> receives, in order, the files whose
  path is assigned to \<open>i\<close>.\<close>

lemma fold_assign_file:
  "fold (assign_file ordered) fs (g, a) =
     (map (\<lambda>i. g ! i @ filter (\<lambda>f. assigned_index ordered (path f) = Some i) fs) [0..<length g],
      a \<union> path ` {f \<in> set fs. assigned_index ordered (path f) \<noteq> None})"
proof (induction fs arbitrary: g a)
  case Nil
  then show ?case by (simp add: map_nth)
next
  case (Cons f fs)
  show ?case
  proof (cases "assigned_index ordered (path f)")
    case None
    then show ?thesis
      by (simp add: assign_file_index Cons.IH) auto
  next
    case (Some k)
    have "map (\<lambda>i. g[k := g ! k @ [f]] ! i @
                  filter (\<lambda>f. assigned_index ordered (path f) = Some i) fs) [0..<length g]
          = map (\<lambda>i. g ! i @
                  filter (\<lambda>f. assigned_index ordered (path f) = Some i) (f # fs)) [0..<length g]"
      using Some by (intro map_cong refl) (auto simp: nth_list_update)
    then show ?thesis
      using Some by (simp add: assign_file_index Cons.IH) auto
  qed
qed

lemma groupFilesBySubfolder_closed_form:
  "groupFilesBySubfolder files subfolders =
     (zip subfolders
        (map (\<lambda>i. filter (\<lambda>f. assigned_index (sortedSubfolders subfolders) (path f) = Some i)
                     files)
           [0..<length subfolders]),
      filter (\<lambda>f. assigned_index (sortedSubfolders subfolders) (path f) = None) files)"
proof -
  let ?idx = "assigned_index (sortedSubfolders subfolders)"
  have a: "map (\<lambda>i. map (\<lambda>subfolder. []) subfolders ! i @ filter (\<lambda>f. ?idx (path f) = Some i) files)
             [0..<length subfolders]
           = map (\<lambda>i. filter (\<lambda>f. ?idx (path f) = Some i) files) [0..<length subfolders]"
    by (intro map_cong refl) simp
  have b: "filter (\<lambda>f. path f \<notin> path ` {f \<in> set files. \<exists>i. ?idx (path f) = Some i}) files
           = filter (\<lambda>f. ?idx (path f) = None) files"
    by (intro filter_cong refl) auto
  show ?thesis
    by (simp add: groupFilesBySubfolder_def fold_assign_file a b)
qed

lemma set_sortedSubfolders:
  "(k, s) \<in> set (sortedSubfolders subfolders) \<longleftrightarrow> k < length subfolders \<and> subfolders ! k = s"
  by (auto simp: sortedSubfolders_def in_set_enumerate_eq)

lemma sorted_sortedSubfolders:
  "sorted (map (\<lambda>(i, subfolder). - int (length (sub_path subfolder)))
             (sortedSubfolders subfolders))"
  by (simp add: sortedSubfolders_def)

lemma find_sorted_least:
  "find P xs = Some z \<Longrightarrow> y \<in> set xs \<Longrightarrow> P y \<Longrightarrow> sorted (map key xs) \<Longrightarrow>
   key z \<le> (key y :: int)"
  by (induction xs) (auto split: if_splits)

lemma assigned_index_Some:
  assumes "assigned_index (sortedSubfolders subfolders) p = Some k"
  shows "k < length subfolders"
    and "belongsToSubfolder p (sub_path (subfolders ! k))"
    and "j < length subfolders \<Longrightarrow> belongsToSubfolder p (sub_path (subfolders ! j)) \<Longrightarrow>
         length (sub_path (subfolders ! j)) \<le> length (sub_path (subfolders ! k))"
proof -
  let ?P = "\<lambda>(i, subfolder). belongsToSubfolder p (sub_path subfolder)"
  let ?key = "\<lambda>(i, subfolder). - int (length (sub_path subfolder))"
  obtain s where f: "find ?P (sortedSubfolders subfolders) = Some (k, s)"
    using assms by (auto simp: assigned_index_def)
  then have "(k, s) \<in> set (sortedSubfolders subfolders)" and p: "?P (k, s)"
    by (auto simp: find_Some_iff) (metis nth_mem)
  then have ks: "k < length subfolders" "subfolders ! k = s"
    by (simp_all add: set_sortedSubfolders)
  show "k < length subfolders" by (rule ks)
  show "belongsToSubfolder p (sub_path (subfolders ! k))" using p ks by simp
  show "length (sub_path (subfolders ! j)) \<le> length (sub_path (subfolders ! k))"
    if "j < length subfolders" "belongsToSubfolder p (sub_path (subfolders ! j))"
  proof -
    have m: "(j, subfolders ! j) \<in> set (sortedSubfolders subfolders)"
      using that by (simp add: set_sortedSubfolders)
    have pj: "?P (j, subfolders ! j)" using that by simp
    have "?key (k, s) \<le> ?key (j, subfolders ! j)"
      by (rule find_sorted_least [OF f m pj sorted_sortedSubfolders])
    then show ?thesis using ks by simp
  qed
qed

lemma assigned_index_None:
  assumes "assigned_index (sortedSubfolders subfolders) p = None"
    and "j < length subfolders"
  shows "\<not> belongsToSubfolder p (sub_path (subfolders ! j))"
proof -
  have "(j, subfolders ! j) \<in> set (sortedSubfolders subfolders)"
    using assms(2) by (simp add: set_sortedSubfolders)
  then show ?thesis
    using assms(1) by (auto simp: assigned_index_def find_None_iff)
qed

lemma mset_concat_filters:
  "mset (concat (map (\<lambda>i. filter (\<lambda>f. h f = Some i) fs) [0..<n]))
     = mset (filter (\<lambda>f. \<exists>i<n. h f = Some i) fs)"
proof (induction n)
  case 0
  then show ?case by simp
next
  case (Suc n)
  have "mset (filter (\<lambda>f. \<exists>i<n. h f = Some i) fs) + mset (filter (\<lambda>f. h f = Some n) fs)
        = mset (filter (\<lambda>f. \<exists>i<Suc n. h f = Some i) fs)"
    by (rule multiset_eqI) (auto simp: less_Suc_eq)
  then show ?case using Suc by simp
qed

lemma buckets_closed_form:
  "buckets (groupFilesBySubfolder files subfolders) =
     map (\<lambda>i. filter (\<lambda>f. assigned_index (sortedSubfolders subfolders) (path f) = Some i) files)
       [0..<length subfolders]
     @ [filter (\<lambda>f. assigned_index (sortedSubfolders subfolders) (path f) = None) files]"
  by (simp add: buckets_def groupFilesBySubfolder_closed_form)

lemma bucket_member:
  assumes "f \<in> set files" and "k \<le> length subfolders"
  shows "path f \<in> path ` set (buckets (groupFilesBySubfolder files subfolders) ! k) \<longleftrightarrow>
         (if k < length subfolders
          then assigned_index (sortedSubfolders subfolders) (path f) = Some k
          else assigned_index (sortedSubfolders subfolders) (path f) = None)"
proof (cases "k < length subfolders")
  case True
  then show ?thesis
    using assms(1) by (auto simp: buckets_closed_form nth_append)
next
  case False
  then have "k = length subfolders" using assms(2) by simp
  then show ?thesis
    using assms(1) by (auto simp: buckets_closed_form nth_append)
qed

lemma strip_trailing_slash_length:
  "length (strip_trailing_slash s) \<le> length s"
  "length s \<le> Suc (length (strip_trailing_slash s))"
  by (auto simp: strip_trailing_slash_def)

text \<open>A path that lies properly under another is longer, trailing slashes included.\<close>

lemma proper_subfolder_longer:
  assumes "proper_subfolder inner outer"
  shows "length outer < length inner"
proof -
  let ?ni = "normalizePath inner" and ?no = "normalizePath outer"
  obtain zs where ci: "strip_trailing_slash ?ni = strip_trailing_slash ?no @ ''/'' @ zs"
    using assms by (auto simp: proper_subfolder_def startsWith_def clean_path_def prefix_def)
  have len: "length (strip_trailing_slash ?ni) = length (strip_trailing_slash ?no) + 1 + length zs"
    by (simp add: ci)
  have lo: "length outer \<le> Suc (length (strip_trailing_slash ?no))"
    using strip_trailing_slash_length(2) [of ?no] by (simp add: normalizePath_def)
  have li: "length ?ni = length inner"
    by (simp add: normalizePath_def)
  show ?thesis
  proof (cases "?ni \<noteq> [] \<and> last ?ni = CHR ''/''")
    case True
    then have "Suc (length (strip_trailing_slash ?ni)) = length ?ni"
      by (simp add: strip_trailing_slash_def)
    then show ?thesis using len lo li by linarith
  next
    case False
    then have s: "strip_trailing_slash ?ni = ?ni"
      by (auto simp: strip_trailing_slash_def)
    have "zs \<noteq> []"
    proof
      assume "zs = []"
      then have "?ni = strip_trailing_slash ?no @ ''/''" using ci s by simp
      then have "?ni \<noteq> [] \<and> last ?ni = CHR ''/''"
        by (metis append_is_Nil_conv last_snoc not_Cons_self2)
      with False show False ..
    qed
    then have "0 < length zs" by simp
    moreover have "length ?ni = length (strip_trailing_slash ?no) + 1 + length zs"
      using len s by simp
    ultimately show ?thesis using lo li by linarith
  qed
qed

text \<open>
  C4. The grouping is a partition of the files: the map has one entry for each subfolder, in
  the order of the configuration; the buckets and the ungrouped list together hold exactly
  the files of the input, each as often as the input has it; and the path of every file
  occurs in exactly one of the buckets or the ungrouped list.
\<close>

theorem groupFilesBySubfolder_partition:
  "map fst (fst (groupFilesBySubfolder files subfolders)) = subfolders
   \<and> mset (concat (buckets (groupFilesBySubfolder files subfolders))) = mset files
   \<and> (\<forall>f \<in> set files.
        \<exists>!k. k < length (buckets (groupFilesBySubfolder files subfolders))
             \<and> path f \<in> path ` set (buckets (groupFilesBySubfolder files subfolders) ! k))"
proof (intro conjI ballI)
  let ?idx = "assigned_index (sortedSubfolders subfolders)"
  let ?n = "length subfolders"
  show "map fst (fst (groupFilesBySubfolder files subfolders)) = subfolders"
    by (simp add: groupFilesBySubfolder_closed_form)
  have "mset (filter (\<lambda>f. \<exists>i<?n. ?idx (path f) = Some i) files)
          + mset (filter (\<lambda>f. ?idx (path f) = None) files) = mset files"
    by (rule multiset_eqI) (auto dest: assigned_index_Some(1))
  then show "mset (concat (buckets (groupFilesBySubfolder files subfolders))) = mset files"
    by (simp add: buckets_closed_form mset_concat_filters)
  fix f assume f: "f \<in> set files"
  have len: "length (buckets (groupFilesBySubfolder files subfolders)) = Suc ?n"
    by (simp add: buckets_closed_form)
  show "\<exists>!k. k < length (buckets (groupFilesBySubfolder files subfolders))
             \<and> path f \<in> path ` set (buckets (groupFilesBySubfolder files subfolders) ! k)"
  proof (cases "?idx (path f)")
    case None
    show ?thesis
    proof (rule ex1I [of _ ?n])
      show "?n < length (buckets (groupFilesBySubfolder files subfolders))
            \<and> path f \<in> path ` set (buckets (groupFilesBySubfolder files subfolders) ! ?n)"
        using None bucket_member [OF f, of ?n subfolders] len by simp
    next
      fix k
      assume "k < length (buckets (groupFilesBySubfolder files subfolders))
              \<and> path f \<in> path ` set (buckets (groupFilesBySubfolder files subfolders) ! k)"
      then show "k = ?n"
        using None bucket_member [OF f, of k subfolders] len by (cases "k < ?n") auto
    qed
  next
    case (Some i)
    then have i: "i < ?n" by (rule assigned_index_Some(1))
    show ?thesis
    proof (rule ex1I [of _ i])
      show "i < length (buckets (groupFilesBySubfolder files subfolders))
            \<and> path f \<in> path ` set (buckets (groupFilesBySubfolder files subfolders) ! i)"
        using Some i bucket_member [OF f, of i subfolders] len by simp
    next
      fix k
      assume "k < length (buckets (groupFilesBySubfolder files subfolders))
              \<and> path f \<in> path ` set (buckets (groupFilesBySubfolder files subfolders) ! k)"
      then show "k = i"
        using Some bucket_member [OF f, of k subfolders] len by (cases "k < ?n") auto
    qed
  qed
qed

theorem groupFilesBySubfolder_partition_witness:
  "groupFilesBySubfolder [file_at ''src/a.ts'', file_at ''lib/b.ts'', file_at ''src/api/c.ts'']
     [subfolder_at ''src'']
   = ([(subfolder_at ''src'', [file_at ''src/a.ts'', file_at ''src/api/c.ts''])],
      [file_at ''lib/b.ts''])
   \<and> mset (concat (buckets (groupFilesBySubfolder
         [file_at ''src/a.ts'', file_at ''lib/b.ts'', file_at ''src/api/c.ts'']
         [subfolder_at ''src''])))
     = mset [file_at ''src/a.ts'', file_at ''lib/b.ts'', file_at ''src/api/c.ts'']
   \<and> (\<exists>!k. k < length (buckets (groupFilesBySubfolder
                 [file_at ''src/a.ts'', file_at ''lib/b.ts'', file_at ''src/api/c.ts'']
                 [subfolder_at ''src'']))
           \<and> path (file_at ''lib/b.ts'')
               \<in> path ` set (buckets (groupFilesBySubfolder
                    [file_at ''src/a.ts'', file_at ''lib/b.ts'', file_at ''src/api/c.ts'']
                    [subfolder_at ''src'']) ! k))"
proof -
  have "groupFilesBySubfolder [file_at ''src/a.ts'', file_at ''lib/b.ts'', file_at ''src/api/c.ts'']
     [subfolder_at ''src'']
   = ([(subfolder_at ''src'', [file_at ''src/a.ts'', file_at ''src/api/c.ts''])],
      [file_at ''lib/b.ts''])"
    by code_simp
  then show ?thesis
    using groupFilesBySubfolder_partition
      [of "[file_at ''src/a.ts'', file_at ''lib/b.ts'', file_at ''src/api/c.ts'']"
          "[subfolder_at ''src'']"]
    by simp
qed

text \<open>
  C5. The claim assigns a file under the longer of two nested subfolder paths to the longer
  subfolder. With three nested subfolders the file goes to the innermost: for the pair
  \<^verbatim>\<open>src\<close> and \<^verbatim>\<open>src/api\<close> the file \<^verbatim>\<open>src/api/v1/x.ts\<close> lies under \<^verbatim>\<open>src/api\<close> and is assigned to
  \<^verbatim>\<open>src/api/v1\<close>.
\<close>

theorem groupFilesBySubfolder_innermost_counterexample:
  "proper_subfolder ''src/api'' ''src''
   \<and> belongsToSubfolder (path (file_at ''src/api/v1/x.ts'')) ''src/api''
   \<and> groupFilesBySubfolder [file_at ''src/api/v1/x.ts'']
        [subfolder_at ''src'', subfolder_at ''src/api'', subfolder_at ''src/api/v1'']
     = ([(subfolder_at ''src'', []), (subfolder_at ''src/api'', []),
         (subfolder_at ''src/api/v1'', [file_at ''src/api/v1/x.ts''])], [])"
  by code_simp

text \<open>
  C5, amended. For two configured subfolders of which one lies properly under the other, a
  file that belongs to the inner one is never assigned to the outer one; it is assigned to a
  configured subfolder that contains it and whose path is at least as long as the inner path,
  and to the inner subfolder itself when every other configured subfolder that contains
  the file has a shorter path.
\<close>

theorem groupFilesBySubfolder_most_specific:
  assumes "outer < length subfolders" and "inner < length subfolders"
    and "proper_subfolder (sub_path (subfolders ! inner)) (sub_path (subfolders ! outer))"
    and "f \<in> set files"
    and "belongsToSubfolder (path f) (sub_path (subfolders ! inner))"
  shows "f \<notin> set (snd (fst (groupFilesBySubfolder files subfolders) ! outer))
    \<and> (\<exists>k < length subfolders.
          f \<in> set (snd (fst (groupFilesBySubfolder files subfolders) ! k))
          \<and> belongsToSubfolder (path f) (sub_path (subfolders ! k))
          \<and> length (sub_path (subfolders ! inner)) \<le> length (sub_path (subfolders ! k)))
    \<and> ((\<forall>k < length subfolders. k \<noteq> inner \<longrightarrow>
            belongsToSubfolder (path f) (sub_path (subfolders ! k)) \<longrightarrow>
            length (sub_path (subfolders ! k)) < length (sub_path (subfolders ! inner)))
         \<longrightarrow> f \<in> set (snd (fst (groupFilesBySubfolder files subfolders) ! inner)))"
proof -
  let ?idx = "assigned_index (sortedSubfolders subfolders)"
  have bucket: "set (snd (fst (groupFilesBySubfolder files subfolders) ! k))
                  = {g \<in> set files. ?idx (path g) = Some k}"
    if "k < length subfolders" for k
    using that by (simp add: groupFilesBySubfolder_closed_form)
  obtain k where k: "?idx (path f) = Some k"
    using assigned_index_None [of subfolders "path f" inner] assms(2,5) by (cases "?idx (path f)") auto
  note kp = assigned_index_Some [OF k]
  have ge: "length (sub_path (subfolders ! inner)) \<le> length (sub_path (subfolders ! k))"
    using kp(3) [of inner] assms(2,5) by simp
  have "k \<noteq> outer"
    using ge proper_subfolder_longer [OF assms(3)] by auto
  then have "f \<notin> set (snd (fst (groupFilesBySubfolder files subfolders) ! outer))"
    using k assms(1) by (simp add: bucket)
  moreover have "\<exists>k < length subfolders.
          f \<in> set (snd (fst (groupFilesBySubfolder files subfolders) ! k))
          \<and> belongsToSubfolder (path f) (sub_path (subfolders ! k))
          \<and> length (sub_path (subfolders ! inner)) \<le> length (sub_path (subfolders ! k))"
    using k kp(1,2) ge assms(4) by (auto simp: bucket)
  moreover have "f \<in> set (snd (fst (groupFilesBySubfolder files subfolders) ! inner))"
    if "\<forall>k < length subfolders. k \<noteq> inner \<longrightarrow>
            belongsToSubfolder (path f) (sub_path (subfolders ! k)) \<longrightarrow>
            length (sub_path (subfolders ! k)) < length (sub_path (subfolders ! inner))"
  proof -
    have "k = inner"
      using that kp(1,2) ge by (metis not_less)
    then show ?thesis using k assms(2,4) by (simp add: bucket)
  qed
  ultimately show ?thesis by blast
qed

theorem groupFilesBySubfolder_most_specific_witness:
  "proper_subfolder (sub_path ([subfolder_at ''src'', subfolder_at ''src/api''] ! 1))
     (sub_path ([subfolder_at ''src'', subfolder_at ''src/api''] ! 0))
   \<and> belongsToSubfolder (path (file_at ''src/api/x.ts''))
       (sub_path ([subfolder_at ''src'', subfolder_at ''src/api''] ! 1))
   \<and> file_at ''src/api/x.ts''
       \<notin> set (snd (fst (groupFilesBySubfolder [file_at ''src/a.ts'', file_at ''src/api/x.ts'']
                          [subfolder_at ''src'', subfolder_at ''src/api'']) ! 0))
   \<and> file_at ''src/api/x.ts''
       \<in> set (snd (fst (groupFilesBySubfolder [file_at ''src/a.ts'', file_at ''src/api/x.ts'']
                          [subfolder_at ''src'', subfolder_at ''src/api'']) ! 1))"
proof -
  let ?subs = "[subfolder_at ''src'', subfolder_at ''src/api'']"
  let ?files = "[file_at ''src/a.ts'', file_at ''src/api/x.ts'']"
  have p: "proper_subfolder (sub_path (?subs ! 1)) (sub_path (?subs ! 0))"
    by code_simp
  have b: "belongsToSubfolder (path (file_at ''src/api/x.ts'')) (sub_path (?subs ! 1))"
    by code_simp
  have o: "\<forall>k < length ?subs. k \<noteq> 1 \<longrightarrow>
            belongsToSubfolder (path (file_at ''src/api/x.ts'')) (sub_path (?subs ! k)) \<longrightarrow>
            length (sub_path (?subs ! k)) < length (sub_path (?subs ! 1))"
    by (simp add: less_Suc_eq subfolder_at_def)
  show ?thesis
    using groupFilesBySubfolder_most_specific [of 0 ?subs 1 "file_at ''src/api/x.ts''" ?files]
      p b o
    by simp
qed

section \<open>Properties of the dry run\<close>


















end
